theory Spec2Isabelle
  imports Complex_Main
begin

section \<open>The terminal recorder of the demo video generator\<close>

text \<open>
  The development embeds the class \<^verbatim>\<open>TerminalRecorder\<close> of
  \<^verbatim>\<open>demo-automation/generate-demo-video.py\<close>. Each method takes the recorder as its
  first argument (Python's \<^verbatim>\<open>self\<close>) and returns the recorder after the call.

  Modelling decisions:
  \<^item> the virtual clock, the delays and the timestamps are Python floats, that is IEEE 754
    double-precision numbers: \<open>pyfloat\<close> has the finite values, the two infinities and
    \<^verbatim>\<open>nan\<close>, and \<open>fadd\<close> is the addition of doubles, which rounds the exact sum to the
    nearest double;
  \<^item> a Python \<^verbatim>\<open>str\<close> is a \<open>string\<close>, one \<open>char\<close> standing for one element of the
    \<^verbatim>\<open>str\<close> (what \<^verbatim>\<open>for char in text\<close> yields and \<^verbatim>\<open>len\<close> counts);
  \<^item> the escape character \<^verbatim>\<open>\033\<close> is \<open>CHR 0x1B\<close>, the newline is \<open>CHR 0x0A\<close>;
  \<^item> \<^verbatim>\<open>json.dumps\<close> and \<^verbatim>\<open>time.time\<close> belong to the Python library, not to the
    repository: the encoder is a parameter \<open>dumps\<close>, the clock reading a parameter \<open>now\<close>.
\<close>

subsection \<open>Python floats\<close>

text \<open>
  A Python float is an IEEE 754 double; its arithmetic rounds to the nearest double, a tie
  going to the double with the even last bit. A finite float is given by its value, a real
  number. Every float the program computes is a double: a literal of the source text is
  rounded by \<open>float_lit\<close>, a sum by \<open>fadd\<close>. An \<^verbatim>\<open>int\<close> passed where a float is expected,
  as in \<^verbatim>\<open>pause(2)\<close>, enters the sum as the float of the same value. The sign of a zero is
  not modelled (the clock starts at \<^verbatim>\<open>0.0\<close> and no sum of the program yields \<^verbatim>\<open>-0.0\<close>).
\<close>

datatype pyfloat = Finite real | PosInf | NegInf | NaN

text \<open>Rounding a real number to the nearest integer, a tie going to the even neighbour.\<close>

definition round_half_even :: "real \<Rightarrow> int" where
  "round_half_even t =
     (let f = \<lfloor>t\<rfloor>; r = t - of_int f
      in if r < 1 / 2 then f else if 1 / 2 < r then f + 1 else if even f then f else f + 1)"

text \<open>
  The binary exponent of a magnitude \<open>a\<close>: the \<open>e\<close> with \<open>2\<^sup>e \<le> a < 2\<^sup>e\<^sup>+\<^sup>1\<close>, searched upwards
  from 0 when \<open>a \<ge> 1\<close> and downwards from \<open>-1\<close> otherwise. The search stops at \<open>-1022\<close>, the
  exponent of the subnormal doubles, and at \<open>1024\<close>, beyond the largest double.
\<close>

function exp_up :: "real \<Rightarrow> int \<Rightarrow> int" where
  "exp_up a e = (if 1024 \<le> e \<or> a < 2 powi (e + 1) then e else exp_up a (e + 1))"
  by auto
termination
  by (relation "measure (\<lambda>(a, e). nat (1024 - e))") auto

function exp_down :: "real \<Rightarrow> int \<Rightarrow> int" where
  "exp_down a e = (if e \<le> - 1022 \<or> 2 powi e \<le> a then e else exp_down a (e - 1))"
  by auto
termination
  by (relation "measure (\<lambda>(a, e). nat (e + 1022))") auto

declare exp_up.simps [simp del]

declare exp_down.simps [simp del]

definition exponent :: "real \<Rightarrow> int" where
  "exponent a = (if 1 \<le> a then exp_up a 0 else exp_down a (- 1))"

text \<open>
  A double has 53 significant bits, so the doubles next to \<open>x\<close> are the multiples of
  \<open>quantum x\<close>. \<open>round_double\<close> takes the nearest multiple, ties to the even one, and
  overflows to an infinity from \<open>2\<^sup>1\<^sup>0\<^sup>2\<^sup>4\<close> on.
\<close>

definition quantum :: "real \<Rightarrow> real" where
  "quantum x = 2 powi (exponent \<bar>x\<bar> - 52)"

definition round_to_quantum :: "real \<Rightarrow> real" where
  "round_to_quantum x = of_int (round_half_even (x / quantum x)) * quantum x"

definition round_double :: "real \<Rightarrow> pyfloat" where
  "round_double x =
     (let r = round_to_quantum x
      in if 2 powi 1024 \<le> \<bar>r\<bar> then (if 0 < r then PosInf else NegInf) else Finite r)"

text \<open>The float that a decimal literal of the source text denotes, such as \<^verbatim>\<open>0.05\<close>.\<close>

definition float_lit :: "real \<Rightarrow> pyfloat" where
  "float_lit x = round_double x"

text \<open>The operator \<^verbatim>\<open>+\<close> on floats.\<close>

fun fadd :: "pyfloat \<Rightarrow> pyfloat \<Rightarrow> pyfloat" where
  "fadd (Finite x) (Finite y) = round_double (x + y)"
| "fadd NaN _ = NaN"
| "fadd _ NaN = NaN"
| "fadd PosInf NegInf = NaN"
| "fadd NegInf PosInf = NaN"
| "fadd PosInf _ = PosInf"
| "fadd _ PosInf = PosInf"
| "fadd NegInf _ = NegInf"
| "fadd _ NegInf = NegInf"

text \<open>The comparisons \<^verbatim>\<open><\<close> and \<^verbatim>\<open><=\<close> on floats; every comparison with \<^verbatim>\<open>nan\<close> is false.\<close>

fun flt :: "pyfloat \<Rightarrow> pyfloat \<Rightarrow> bool" where
  "flt (Finite x) (Finite y) = (x < y)"
| "flt NaN _ = False"
| "flt _ NaN = False"
| "flt _ NegInf = False"
| "flt PosInf _ = False"
| "flt NegInf _ = True"
| "flt _ PosInf = True"

fun fle :: "pyfloat \<Rightarrow> pyfloat \<Rightarrow> bool" where
  "fle (Finite x) (Finite y) = (x \<le> y)"
| "fle NaN _ = False"
| "fle _ NaN = False"
| "fle NegInf _ = True"
| "fle _ PosInf = True"
| "fle _ NegInf = False"
| "fle PosInf _ = False"

subsection \<open>State\<close>

record terminal_recorder =
  width :: int
  height :: int
  events :: "(pyfloat \<times> string \<times> string) list"
  current_time :: pyfloat

text \<open>The constructor \<^verbatim>\<open>__init__(self, width, height)\<close>; the clock starts at \<^verbatim>\<open>0.0\<close>.\<close>

definition TerminalRecorder_init :: "int \<Rightarrow> int \<Rightarrow> terminal_recorder" where
  "TerminalRecorder_init w h = \<lparr>width = w, height = h, events = [], current_time = Finite 0\<rparr>"

subsection \<open>Building the timeline\<close>

text \<open>
  \<^verbatim>\<open>write\<close>: the guard \<^verbatim>\<open>delay > 0\<close>, then \<^verbatim>\<open>self.current_time += delay\<close>; the event is
  appended afterwards, at the clock value of that moment.
\<close>

definition "write" :: "terminal_recorder \<Rightarrow> string \<Rightarrow> pyfloat \<Rightarrow> terminal_recorder" where
  "write self text delay =
     (let self1 = (if flt (Finite 0) delay
                   then self\<lparr>current_time := fadd (current_time self) delay\<rparr> else self)
      in self1\<lparr>events := events self1 @ [(current_time self1, ''o'', text)]\<rparr>)"

text \<open>\<^verbatim>\<open>type_text\<close>: the loop over the characters, one \<^verbatim>\<open>write\<close> for each.\<close>

fun type_text :: "terminal_recorder \<Rightarrow> string \<Rightarrow> pyfloat \<Rightarrow> terminal_recorder" where
  "type_text self [] typing_speed = self"
| "type_text self (char # text) typing_speed = type_text (write self [char] typing_speed) text typing_speed"

text \<open>\<^verbatim>\<open>pause\<close>: \<^verbatim>\<open>self.current_time += duration\<close>, with no guard.\<close>

definition pause :: "terminal_recorder \<Rightarrow> pyfloat \<Rightarrow> terminal_recorder" where
  "pause self duration = self\<lparr>current_time := fadd (current_time self) duration\<rparr>"

text \<open>
  \<^verbatim>\<open>clear_screen\<close> calls \<^verbatim>\<open>self.write("\033[2J\033[H")\<close>, leaving the delay to its default
  value \<^verbatim>\<open>0.0\<close>.
\<close>

definition write_default_delay :: pyfloat where
  "write_default_delay = Finite 0"

definition clear_screen :: "terminal_recorder \<Rightarrow> terminal_recorder" where
  "clear_screen self = write self (CHR 0x1B # ''[2J'' @ CHR 0x1B # ''[H'') write_default_delay"

text \<open>
  The clock after one \<^verbatim>\<open>write\<close> with the given delay: the guard and the addition, as one
  function of the clock.
\<close>

definition advance :: "pyfloat \<Rightarrow> pyfloat \<Rightarrow> pyfloat" where
  "advance delay clock = (if flt (Finite 0) delay then fadd clock delay else clock)"

subsection \<open>Colours\<close>

datatype error = KeyError string

text \<open>The dictionary \<^verbatim>\<open>colors\<close> of the method \<^verbatim>\<open>color\<close>, in the order of the source.\<close>

definition colors :: "(string \<times> string) list" where
  "colors =
    [(''red'', CHR 0x1B # ''[0;31m''),
     (''green'', CHR 0x1B # ''[0;32m''),
     (''yellow'', CHR 0x1B # ''[1;33m''),
     (''blue'', CHR 0x1B # ''[0;34m''),
     (''purple'', CHR 0x1B # ''[0;35m''),
     (''cyan'', CHR 0x1B # ''[0;36m''),
     (''bold'', CHR 0x1B # ''[1m''),
     (''reset'', CHR 0x1B # ''[0m'')]"

text \<open>
  \<^verbatim>\<open>colors.get(color_code, '')\<close> falls back to the empty string; the subscript
  \<^verbatim>\<open>colors['reset']\<close> would raise \<^verbatim>\<open>KeyError\<close> on a missing key.
\<close>

definition color :: "terminal_recorder \<Rightarrow> string \<Rightarrow> string \<Rightarrow> error + string" where
  "color self text color_code =
     (let opening = (case map_of colors color_code of None \<Rightarrow> '''' | Some code \<Rightarrow> code)
      in case map_of colors ''reset'' of
           None \<Rightarrow> Inl (KeyError ''reset'')
         | Some reset \<Rightarrow> Inr (opening @ text @ reset))"

subsection \<open>Serialization\<close>

text \<open>The values handed to \<^verbatim>\<open>json.dumps\<close>: integers, floats, strings, lists and dictionaries.\<close>

datatype json =
    JInt int
  | JFloat pyfloat
  | JStr string
  | JArr "json list"
  | JObj "(string \<times> json) list"

fun field :: "string \<Rightarrow> json \<Rightarrow> json option" where
  "field k (JObj kvs) = map_of kvs k"
| "field k _ = None"

text \<open>The dictionary \<^verbatim>\<open>header\<close>; \<open>now\<close> is \<^verbatim>\<open>int(time.time())\<close>.\<close>

definition header :: "int \<Rightarrow> terminal_recorder \<Rightarrow> json" where
  "header now self =
     JObj [(''version'', JInt 2),
           (''width'', JInt (width self)),
           (''height'', JInt (height self)),
           (''timestamp'', JInt now),
           (''title'', JStr ''VibeSec Demo''),
           (''env'', JObj [(''SHELL'', JStr ''/bin/bash''), (''TERM'', JStr ''xterm-256color'')])]"

text \<open>
  The loop \<^verbatim>\<open>for timestamp, event_type, data in self.events\<close>: each pass appends one line
  to the file \<open>f\<close>, the text written so far.
\<close>

fun write_events :: "(json \<Rightarrow> string) \<Rightarrow> (pyfloat \<times> string \<times> string) list \<Rightarrow> string \<Rightarrow> string" where
  "write_events dumps [] f = f"
| "write_events dumps ((timestamp, event_type, data) # rest) f =
     write_events dumps rest (f @ dumps (JArr [JFloat timestamp, JStr event_type, JStr data]) @ [CHR 0x0A])"

text \<open>
  \<^verbatim>\<open>save_asciicast\<close> returns the text written to the file, which is opened in mode
  \<^verbatim>\<open>"w"\<close> and so starts empty. The method itself raises nothing; a failure of the
  operating system to open or write the file, and the messages printed to the console
  afterwards, are not part of the model.
\<close>

definition save_asciicast :: "(json \<Rightarrow> string) \<Rightarrow> int \<Rightarrow> terminal_recorder \<Rightarrow> string" where
  "save_asciicast dumps now self =
     write_events dumps (events self) ([] @ dumps (header now self) @ [CHR 0x0A])"

subsection \<open>Scripts\<close>

text \<open>
  A script such as \<^verbatim>\<open>generate_vibesec_demo\<close> is a sequence of method calls on one recorder.
  A \<open>call\<close> names one call with its arguments; \<open>run_calls\<close> performs them in order.
\<close>

datatype call =
    Write string pyfloat
  | TypeText string pyfloat
  | Pause pyfloat
  | ClearScreen

fun do_call :: "terminal_recorder \<Rightarrow> call \<Rightarrow> terminal_recorder" where
  "do_call self (Write text delay) = write self text delay"
| "do_call self (TypeText text typing_speed) = type_text self text typing_speed"
| "do_call self (Pause duration) = pause self duration"
| "do_call self ClearScreen = clear_screen self"

definition run_calls :: "terminal_recorder \<Rightarrow> call list \<Rightarrow> terminal_recorder" where
  "run_calls self cs = foldl do_call self cs"

text \<open>
  A call is non-negative when the delay or duration it passes, if any, satisfies
  \<^verbatim>\<open>0 <= x\<close>.
\<close>

fun nonneg_call :: "call \<Rightarrow> bool" where
  "nonneg_call (Write text delay) = fle (Finite 0) delay"
| "nonneg_call (TypeText text typing_speed) = fle (Finite 0) typing_speed"
| "nonneg_call (Pause duration) = fle (Finite 0) duration"
| "nonneg_call ClearScreen = True"

text \<open>
  The record that one pass of the loop hands to \<^verbatim>\<open>json.dumps\<close>, and the records of a
  whole file in the order they are written: the header, then one record for each event.
\<close>

fun event_record :: "pyfloat \<times> string \<times> string \<Rightarrow> json" where
  "event_record (timestamp, event_type, data) = JArr [JFloat timestamp, JStr event_type, JStr data]"

definition cast_records :: "int \<Rightarrow> terminal_recorder \<Rightarrow> json list" where
  "cast_records now self = header now self # map event_record (events self)"

subsection \<open>Reading a cast file\<close>

text \<open>
  The repository has no reader; the specification describes one in its round-trip
  property: a file is a sequence of lines, one record on each, the first being the
  header. \<open>read_lines\<close> cuts a text at its newlines, \<open>loads\<close> stands for the decoder of the
  JSON library (a parameter, like \<open>dumps\<close>), and \<open>parse_events\<close> decodes every line after
  the header into a triple of timestamp, channel and payload.
\<close>

fun lines_from :: "string \<Rightarrow> string \<Rightarrow> string list" where
  "lines_from line [] = (if line = [] then [] else [line])"
| "lines_from line (c # cs) =
     (if c = CHR 0x0A then line # lines_from [] cs else lines_from (line @ [c]) cs)"

definition read_lines :: "string \<Rightarrow> string list" where
  "read_lines content = lines_from [] content"

fun event_of_json :: "json \<Rightarrow> (pyfloat \<times> string \<times> string) option" where
  "event_of_json (JArr [JFloat timestamp, JStr event_type, JStr data]) = Some (timestamp, event_type, data)"
| "event_of_json _ = None"

definition parse_events :: "(string \<Rightarrow> json option) \<Rightarrow> string \<Rightarrow> (pyfloat \<times> string \<times> string) option list" where
  "parse_events loads content =
     map (\<lambda>line. case loads line of None \<Rightarrow> None | Some v \<Rightarrow> event_of_json v) (tl (read_lines content))"

subsection \<open>Invariants of the recorder\<close>

text \<open>
  \<open>is_clock\<close>: a value the clock takes when no negative number is added to it: a double
  that is not negative, or the positive infinity. \<open>timeline_ok\<close>: the clock is such a
  value, the timestamps of the stored events are in non-decreasing order and none lies
  after the clock. \<open>channel_ok\<close>: every stored event is on the output channel.
\<close>

fun is_clock :: "pyfloat \<Rightarrow> bool" where
  "is_clock (Finite r) = (0 \<le> r \<and> round_double r = Finite r)"
| "is_clock PosInf = True"
| "is_clock NegInf = False"
| "is_clock NaN = False"

definition timeline_ok :: "terminal_recorder \<Rightarrow> bool" where
  "timeline_ok self =
     (is_clock (current_time self)
      \<and> sorted_wrt fle (map fst (events self))
      \<and> list_all (\<lambda>e. fle (fst e) (current_time self)) (events self))"

definition channel_ok :: "terminal_recorder \<Rightarrow> bool" where
  "channel_ok self = list_all (\<lambda>e. fst (snd e) = ''o'') (events self)"

section \<open>Properties\<close>

subsection \<open>Rounding to a double\<close>

text \<open>
  The facts about \<open>round_double\<close> that the recorder needs, for numbers that are not
  negative: rounding keeps the order, and a rounded value is a double, which rounding
  leaves as it is.
\<close>

lemma round_half_even_of_int: "round_half_even (of_int n) = n"
  by (simp add: round_half_even_def)

lemma round_half_even_bounds: "\<lfloor>t\<rfloor> \<le> round_half_even t \<and> round_half_even t \<le> \<lfloor>t\<rfloor> + 1"
  by (simp add: round_half_even_def Let_def)

lemma round_half_even_mono:
  assumes "s \<le> t"
  shows "round_half_even s \<le> round_half_even t"
proof (cases "\<lfloor>s\<rfloor> = \<lfloor>t\<rfloor>")
  case True
  with assms show ?thesis
    by (auto simp: round_half_even_def Let_def)
next
  case False
  with assms have "\<lfloor>s\<rfloor> + 1 \<le> \<lfloor>t\<rfloor>"
    using floor_mono [of s t] by linarith
  with round_half_even_bounds [of s] round_half_even_bounds [of t] show ?thesis
    by linarith
qed

lemma round_half_even_ge: "of_int n \<le> t \<Longrightarrow> n \<le> round_half_even t"
  using round_half_even_mono [of "of_int n" t] by (simp add: round_half_even_of_int)

lemma round_half_even_le: "t \<le> of_int n \<Longrightarrow> round_half_even t \<le> n"
  using round_half_even_mono [of t "of_int n"] by (simp add: round_half_even_of_int)

lemma exp_up_spec:
  "0 \<le> e \<Longrightarrow> e \<le> 1024 \<Longrightarrow> 2 powi e \<le> a \<Longrightarrow>
   e \<le> exp_up a e \<and> exp_up a e \<le> 1024 \<and> 2 powi (exp_up a e) \<le> a \<and>
   (exp_up a e < 1024 \<longrightarrow> a < 2 powi (exp_up a e + 1))"
proof (induction a e rule: exp_up.induct)
  case (1 a e)
  show ?case
  proof (cases "1024 \<le> e \<or> a < 2 powi (e + 1)")
    case True
    then have stop: "exp_up a e = e"
      by (subst exp_up.simps) simp
    from True "1.prems" show ?thesis
      unfolding stop by auto
  next
    case False
    then have step: "exp_up a e = exp_up a (e + 1)"
      by (subst exp_up.simps) simp
    from False "1.prems" have "0 \<le> e + 1" "e + 1 \<le> 1024" "2 powi (e + 1) \<le> a"
      by auto
    from "1.IH" [OF False this] show ?thesis
      unfolding step by auto
  qed
qed

lemma exp_down_spec:
  "e \<le> - 1 \<Longrightarrow> - 1022 \<le> e \<Longrightarrow> a < 2 powi (e + 1) \<Longrightarrow>
   exp_down a e \<le> e \<and> - 1022 \<le> exp_down a e \<and> a < 2 powi (exp_down a e + 1) \<and>
   (- 1022 < exp_down a e \<longrightarrow> 2 powi (exp_down a e) \<le> a)"
proof (induction a e rule: exp_down.induct)
  case (1 a e)
  show ?case
  proof (cases "e \<le> - 1022 \<or> 2 powi e \<le> a")
    case True
    then have stop: "exp_down a e = e"
      by (subst exp_down.simps) simp
    from True "1.prems" show ?thesis
      unfolding stop by auto
  next
    case False
    then have step: "exp_down a e = exp_down a (e - 1)"
      by (subst exp_down.simps) simp
    from False "1.prems" have "e - 1 \<le> - 1" "- 1022 \<le> e - 1" "a < 2 powi (e - 1 + 1)"
      by auto
    from "1.IH" [OF False this] show ?thesis
      unfolding step by auto
  qed
qed

lemma exponent_spec:
  "- 1022 \<le> exponent a \<and> exponent a \<le> 1024 \<and>
   (exponent a < 1024 \<longrightarrow> a < 2 powi (exponent a + 1)) \<and>
   (- 1022 < exponent a \<longrightarrow> 2 powi (exponent a) \<le> a)"
proof (cases "1 \<le> a")
  case True
  then have "2 powi 0 \<le> a" by simp
  from exp_up_spec [OF _ _ this] True show ?thesis
    by (auto simp: exponent_def)
next
  case False
  then have "a < 2 powi (- 1 + 1)" by simp
  from exp_down_spec [OF _ _ this] False show ?thesis
    by (auto simp: exponent_def)
qed

lemma exponent_mono:
  assumes "a \<le> b"
  shows "exponent a \<le> exponent b"
proof (rule ccontr)
  assume "\<not> exponent a \<le> exponent b"
  then have lt: "exponent b < exponent a" by simp
  with exponent_spec [of a] exponent_spec [of b]
  have "2 powi (exponent a) \<le> a" and "b < 2 powi (exponent b + 1)"
    by auto
  moreover from lt have "(2::real) powi (exponent b + 1) \<le> 2 powi (exponent a)"
    by (intro power_int_increasing) auto
  ultimately show False using assms by linarith
qed

lemma quantum_pos: "0 < quantum x"
  by (simp add: quantum_def)

lemma quantum_times: "of_int (2 ^ 52) * quantum x = 2 powi (exponent \<bar>x\<bar>)"
proof -
  have "(2::real) powi (exponent \<bar>x\<bar>) = 2 powi (52 + (exponent \<bar>x\<bar> - 52))"
    by (rule arg_cong [where f = "\<lambda>k. 2 powi k"]) simp
  also have "\<dots> = 2 powi 52 * 2 powi (exponent \<bar>x\<bar> - 52)"
    by (subst power_int_add) simp_all
  finally show ?thesis
    by (simp add: quantum_def)
qed

lemma quantum_times_next: "of_int (2 ^ 53) * quantum x = 2 powi (exponent \<bar>x\<bar> + 1)"
proof -
  have "(2::real) powi (exponent \<bar>x\<bar> + 1) = 2 powi (53 + (exponent \<bar>x\<bar> - 52))"
    by (rule arg_cong [where f = "\<lambda>k. 2 powi k"]) simp
  also have "\<dots> = 2 powi 53 * 2 powi (exponent \<bar>x\<bar> - 52)"
    by (subst power_int_add) simp_all
  finally show ?thesis
    by (simp add: quantum_def)
qed

lemma round_to_quantum_nonneg:
  assumes "0 \<le> x"
  shows "0 \<le> round_to_quantum x"
proof -
  from assms quantum_pos [of x] have "of_int 0 \<le> x / quantum x" by simp
  then have "0 \<le> round_half_even (x / quantum x)" by (rule round_half_even_ge)
  with quantum_pos [of x] show ?thesis
    by (simp add: round_to_quantum_def)
qed

text \<open>
  Above the subnormal range the rounded value keeps the exponent or reaches the next power
  of two.
\<close>

lemma round_to_quantum_lower:
  assumes "0 \<le> x" and "- 1022 < exponent x"
  shows "2 powi (exponent x) \<le> round_to_quantum x"
proof -
  from assms have ax: "\<bar>x\<bar> = x" by simp
  from assms exponent_spec [of x] have "2 powi (exponent x) \<le> x" by simp
  then have "of_int (2 ^ 52) * quantum x \<le> x"
    by (simp only: quantum_times ax)
  then have "of_int (2 ^ 52) \<le> x / quantum x"
    using quantum_pos [of x] by (simp add: pos_le_divide_eq)
  then have "2 ^ 52 \<le> round_half_even (x / quantum x)"
    by (rule round_half_even_ge)
  then have "(of_int (2 ^ 52) :: real) \<le> of_int (round_half_even (x / quantum x))"
    by (simp only: of_int_le_iff)
  then have "of_int (2 ^ 52) * quantum x \<le> round_to_quantum x"
    unfolding round_to_quantum_def using quantum_pos [of x]
    by (intro mult_right_mono) simp_all
  then show ?thesis
    by (simp only: quantum_times ax)
qed

lemma round_to_quantum_upper:
  assumes "0 \<le> x" and "exponent x < 1024"
  shows "round_to_quantum x \<le> 2 powi (exponent x + 1)"
proof -
  from assms have ax: "\<bar>x\<bar> = x" by simp
  from assms exponent_spec [of x] have "x \<le> 2 powi (exponent x + 1)" by simp
  then have "x \<le> of_int (2 ^ 53) * quantum x"
    by (simp only: quantum_times_next ax)
  then have "x / quantum x \<le> of_int (2 ^ 53)"
    using quantum_pos [of x] by (simp add: pos_divide_le_eq)
  then have "round_half_even (x / quantum x) \<le> 2 ^ 53"
    by (rule round_half_even_le)
  then have "(of_int (round_half_even (x / quantum x)) :: real) \<le> of_int (2 ^ 53)"
    by (simp only: of_int_le_iff)
  then have "round_to_quantum x \<le> of_int (2 ^ 53) * quantum x"
    unfolding round_to_quantum_def using quantum_pos [of x]
    by (intro mult_right_mono) simp_all
  then show ?thesis
    by (simp only: quantum_times_next ax)
qed

lemma round_to_quantum_mono:
  assumes "0 \<le> x" and "x \<le> y"
  shows "round_to_quantum x \<le> round_to_quantum y"
proof -
  from assms have y0: "0 \<le> y" by simp
  from assms have ax: "\<bar>x\<bar> = x" and ay: "\<bar>y\<bar> = y" by simp_all
  have le: "exponent x \<le> exponent y"
    using assms by (intro exponent_mono) simp
  show ?thesis
  proof (cases "exponent x = exponent y")
    case True
    then have q: "quantum x = quantum y"
      by (simp add: quantum_def ax ay)
    from assms quantum_pos [of y] have "x / quantum y \<le> y / quantum y"
      by (simp add: divide_right_mono)
    then have "round_half_even (x / quantum y) \<le> round_half_even (y / quantum y)"
      by (rule round_half_even_mono)
    then have "(of_int (round_half_even (x / quantum y)) :: real) \<le> of_int (round_half_even (y / quantum y))"
      by (simp only: of_int_le_iff)
    then show ?thesis
      unfolding round_to_quantum_def q using quantum_pos [of y]
      by (intro mult_right_mono) simp_all
  next
    case False
    with le have lt: "exponent x < exponent y" by simp
    with exponent_spec [of x] exponent_spec [of y]
    have "exponent x < 1024" and "- 1022 < exponent y" by auto
    then have "round_to_quantum x \<le> 2 powi (exponent x + 1)"
      and "2 powi (exponent y) \<le> round_to_quantum y"
      using assms(1) y0 by (simp_all add: round_to_quantum_upper round_to_quantum_lower)
    moreover from lt have "(2::real) powi (exponent x + 1) \<le> 2 powi (exponent y)"
      by (intro power_int_increasing) auto
    ultimately show ?thesis by linarith
  qed
qed

lemma round_to_quantum_multiple:
  "round_to_quantum (of_int m * quantum x) = of_int m * quantum x"
  if "quantum (of_int m * quantum x) = quantum x"
  using quantum_pos [of x] by (simp add: round_to_quantum_def that round_half_even_of_int)

lemma round_to_quantum_idem:
  assumes "0 \<le> x" and "round_to_quantum x < 2 powi 1024"
  shows "round_to_quantum (round_to_quantum x) = round_to_quantum x"
proof -
  define r where "r = round_to_quantum x"
  have r0: "0 \<le> r"
    unfolding r_def using assms(1) by (rule round_to_quantum_nonneg)
  then have ar: "\<bar>r\<bar> = r" by simp
  from assms have ax: "\<bar>x\<bar> = x" by simp
  have low: "exponent x \<le> exponent r"
  proof (cases "- 1022 < exponent x")
    case True
    then have pr: "2 powi (exponent x) \<le> r"
      unfolding r_def using assms(1) by (intro round_to_quantum_lower)
    show ?thesis
    proof (rule ccontr)
      assume "\<not> exponent x \<le> exponent r"
      then have lt: "exponent r < exponent x" by simp
      with exponent_spec [of r] exponent_spec [of x] have "r < 2 powi (exponent r + 1)"
        by auto
      moreover from lt have "(2::real) powi (exponent r + 1) \<le> 2 powi (exponent x)"
        by (intro power_int_increasing) auto
      ultimately show False using pr by linarith
    qed
  next
    case False
    with exponent_spec [of x] exponent_spec [of r] show ?thesis by linarith
  qed
  have x1024: "exponent x < 1024"
  proof (rule ccontr)
    assume "\<not> exponent x < 1024"
    with exponent_spec [of x] have e: "exponent x = 1024" by linarith
    then have "2 powi (exponent x) \<le> r"
      unfolding r_def using assms(1) by (intro round_to_quantum_lower) simp_all
    with e assms(2) show False by (simp add: r_def)
  qed
  then have up: "r \<le> 2 powi (exponent x + 1)"
    unfolding r_def using assms(1) by (intro round_to_quantum_upper)
  show ?thesis
  proof (cases "exponent r = exponent x")
    case True
    then have "quantum r = quantum x"
      by (simp add: quantum_def ar ax)
    then have "quantum (of_int (round_half_even (x / quantum x)) * quantum x) = quantum x"
      by (simp add: r_def round_to_quantum_def)
    from round_to_quantum_multiple [OF this] show ?thesis
      by (simp add: round_to_quantum_def)
  next
    case False
    with low have lt: "exponent x < exponent r" by simp
    with exponent_spec [of r] exponent_spec [of x] have "2 powi (exponent r) \<le> r"
      by auto
    moreover from lt have "(2::real) powi (exponent x + 1) \<le> 2 powi (exponent r)"
      by (intro power_int_increasing) auto
    ultimately have r: "r = 2 powi (exponent r)"
      using up by linarith
    have "r = of_int (2 ^ 52) * quantum r"
      by (subst r) (simp only: quantum_times ar)
    then have "r / quantum r = of_int (2 ^ 52)"
      using quantum_pos [of r] by (simp add: field_simps)
    then have "round_to_quantum r = of_int (2 ^ 52) * quantum r"
      unfolding round_to_quantum_def by (simp only: round_half_even_of_int)
    with \<open>r = of_int (2 ^ 52) * quantum r\<close> show ?thesis
      by (simp add: r_def)
  qed
qed

lemma round_double_zero: "round_double 0 = Finite 0"
  by (simp add: round_double_def round_to_quantum_def round_half_even_def)

lemma round_double_nonneg_cases:
  assumes "0 \<le> x"
  shows "(round_double x = PosInf \<and> 2 powi 1024 \<le> round_to_quantum x)
       \<or> (round_double x = Finite (round_to_quantum x) \<and> round_to_quantum x < 2 powi 1024)"
proof -
  from assms have "0 \<le> round_to_quantum x" by (rule round_to_quantum_nonneg)
  moreover have "(0::real) < 2 powi 1024" by simp
  ultimately show ?thesis
    unfolding round_double_def Let_def by (cases "2 powi 1024 \<le> round_to_quantum x") auto
qed

lemma is_clock_round_double:
  assumes "0 \<le> x"
  shows "is_clock (round_double x)"
proof -
  from round_double_nonneg_cases [OF assms] show ?thesis
  proof
    assume "round_double x = PosInf \<and> 2 powi 1024 \<le> round_to_quantum x"
    then show ?thesis by simp
  next
    assume fin: "round_double x = Finite (round_to_quantum x) \<and> round_to_quantum x < 2 powi 1024"
    have r0: "0 \<le> round_to_quantum x"
      using assms by (rule round_to_quantum_nonneg)
    from fin have idem: "round_to_quantum (round_to_quantum x) = round_to_quantum x"
      using assms by (intro round_to_quantum_idem) simp_all
    from fin r0 have "round_double (round_to_quantum x) = Finite (round_to_quantum x)"
      unfolding round_double_def [of "round_to_quantum x"] Let_def idem by simp
    with fin r0 show ?thesis by simp
  qed
qed

lemma fle_round_double:
  assumes "0 \<le> r" and "round_double r = Finite r" and "r \<le> x"
  shows "fle (Finite r) (round_double x)"
proof -
  from assms have x0: "0 \<le> x" by simp
  from round_double_nonneg_cases [OF assms(1)] assms(2) have fixed: "round_to_quantum r = r"
    by auto
  have "round_to_quantum r \<le> round_to_quantum x"
    using assms(1,3) by (rule round_to_quantum_mono)
  with fixed have "r \<le> round_to_quantum x" by simp
  with round_double_nonneg_cases [OF x0] show ?thesis by auto
qed

text \<open>
  Order on floats, and the step the clock makes when a number that is not negative is
  added: it stays a clock value and does not go back.
\<close>

lemma fle_trans: "fle a b \<Longrightarrow> fle b c \<Longrightarrow> fle a c"
  by (cases a; cases b; cases c) simp_all

lemma flt_imp_fle: "flt a b \<Longrightarrow> fle a b"
  by (cases a; cases b) simp_all

lemma flt_asym: "flt d (Finite 0) \<Longrightarrow> \<not> flt (Finite 0) d"
  by (cases d) simp_all

lemma is_clock_refl: "is_clock c \<Longrightarrow> fle c c"
  by (cases c) simp_all

lemma is_clock_fadd:
  assumes "is_clock c" and "fle (Finite 0) d"
  shows "is_clock (fadd c d) \<and> fle c (fadd c d)"
proof (cases c)
  case (Finite r)
  with assms(1) have r: "0 \<le> r" "round_double r = Finite r" by simp_all
  show ?thesis
  proof (cases d)
    case (Finite y)
    with assms(2) have "0 \<le> y" by simp
    with r have "0 \<le> r + y" and "r \<le> r + y" by simp_all
    with r show ?thesis
      unfolding \<open>c = Finite r\<close> \<open>d = Finite y\<close>
      by (simp add: is_clock_round_double fle_round_double)
  qed (use assms(2) \<open>c = Finite r\<close> in simp_all)
next
  case PosInf
  with assms(2) show ?thesis by (cases d) simp_all
qed (use assms(1) in simp_all)

text \<open>
  Evaluating \<open>round_double\<close> at a given number unfolds the search for the exponent; the
  literals used below denote these doubles.
\<close>

lemmas eval_double =
  float_lit_def round_double_def round_to_quantum_def quantum_def exponent_def
  exp_up.simps exp_down.simps round_half_even_def Let_def

lemma float_lit_neg_1: "float_lit (- 1) = Finite (- 1)"
  by (simp add: eval_double)

lemma float_lit_1: "float_lit 1 = Finite 1"
  by (simp add: eval_double)

lemma float_lit_2: "float_lit 2.0 = Finite 2"
  by (simp add: eval_double)

lemma float_lit_1e16: "float_lit (10 ^ 16) = Finite (10 ^ 16)"
  by (simp add: eval_double)

lemma float_lit_0_05: "float_lit 0.05 = Finite (3602879701896397 / 2 ^ 56)"
  by (simp add: eval_double)

lemma float_lit_0_1: "float_lit 0.1 = Finite (3602879701896397 / 2 ^ 55)"
  by (simp add: eval_double)

lemma float_lit_0_25: "float_lit 0.25 = Finite (1 / 4)"
  by (simp add: eval_double)

lemma float_lit_1_5: "float_lit 1.5 = Finite (3 / 2)"
  by (simp add: eval_double)

subsection \<open>Writing and pausing\<close>

lemma write_pos:
  "flt (Finite 0) delay \<Longrightarrow> write self text delay =
     self\<lparr>current_time := fadd (current_time self) delay,
          events := events self @ [(fadd (current_time self) delay, ''o'', text)]\<rparr>"
  by (simp add: write_def)

lemma write_nonpos:
  "\<not> flt (Finite 0) delay \<Longrightarrow> write self text delay =
     self\<lparr>events := events self @ [(current_time self, ''o'', text)]\<rparr>"
  by (simp add: write_def)

lemma write_advance:
  "write self text delay =
     self\<lparr>current_time := advance delay (current_time self),
          events := events self @ [(advance delay (current_time self), ''o'', text)]\<rparr>"
  by (simp add: write_def advance_def)

text \<open>
  Claim C3, as stated: for every text and every delay \<open>d > 0\<close>, \<^verbatim>\<open>write(text, d)\<close> advances
  the clock by \<open>d\<close> before it appends the event. The clock is a double and the sum is
  rounded: after \<^verbatim>\<open>pause(1e16)\<close> the clock is \<open>10\<^sup>1\<^sup>6\<close>, where neighbouring doubles are 2
  apart, and \<^verbatim>\<open>write("A", 1.0)\<close> leaves the clock at \<open>10\<^sup>1\<^sup>6\<close>, not at \<open>10\<^sup>1\<^sup>6 + 1\<close>; the
  event is stamped with the value the clock had before.
\<close>

theorem absorbed_delay_counterexample:
  "flt (Finite 0) (float_lit 1)
   \<and> current_time (pause (TerminalRecorder_init 80 24) (float_lit (10 ^ 16))) = Finite (10 ^ 16)
   \<and> current_time (write (pause (TerminalRecorder_init 80 24) (float_lit (10 ^ 16))) ''A'' (float_lit 1))
       = Finite (10 ^ 16)
   \<and> current_time (write (pause (TerminalRecorder_init 80 24) (float_lit (10 ^ 16))) ''A'' (float_lit 1))
       \<noteq> Finite (10 ^ 16 + 1)
   \<and> events (write (pause (TerminalRecorder_init 80 24) (float_lit (10 ^ 16))) ''A'' (float_lit 1))
       = [(Finite (10 ^ 16), ''o'', ''A'')]"
  unfolding float_lit_1 float_lit_1e16
  by (simp add: write_def pause_def TerminalRecorder_init_def) (simp add: eval_double)

text \<open>
  Claim C3, amended. For every text and every delay \<open>d > 0\<close>, \<^verbatim>\<open>write(text, d)\<close> first
  replaces the clock by the float sum of the clock and \<open>d\<close> (\<open>fadd\<close>: the exact sum rounded
  to the nearest double) and then appends exactly one event, stamped with the new clock
  value and carrying the text; on a fresh recorder \<^verbatim>\<open>write("A", 0.05)\<close> gives the single
  event \<open>(0.05, "o", "A")\<close>, and \<^verbatim>\<open>0.05\<close> is not \<^verbatim>\<open>0.0\<close>.
\<close>

theorem write_delay_before_event:
  "(flt (Finite 0) d \<longrightarrow>
      current_time (write self text d) = fadd (current_time self) d \<and>
      events (write self text d) = events self @ [(fadd (current_time self) d, ''o'', text)] \<and>
      width (write self text d) = width self \<and> height (write self text d) = height self)
   \<and> events (write (TerminalRecorder_init w h) ''A'' (float_lit 0.05)) = [(float_lit 0.05, ''o'', ''A'')]
   \<and> float_lit 0.05 \<noteq> Finite 0"
proof -
  have "flt (Finite 0) (float_lit 0.05)" and "float_lit 0.05 \<noteq> Finite 0"
    and "fadd (Finite 0) (float_lit 0.05) = float_lit 0.05"
    unfolding float_lit_0_05 by (simp_all add: eval_double)
  then show ?thesis
    by (simp add: write_pos TerminalRecorder_init_def)
qed

theorem write_delay_before_event_witness:
  "flt (Finite 0) (float_lit 0.05) \<and>
   current_time (write (TerminalRecorder_init 80 24) ''g'' (float_lit 0.05)) = fadd (Finite 0) (float_lit 0.05) \<and>
   events (write (TerminalRecorder_init 80 24) ''g'' (float_lit 0.05)) =
     [(fadd (Finite 0) (float_lit 0.05), ''o'', ''g'')]"
proof -
  have pos: "flt (Finite 0) (float_lit 0.05)"
    unfolding float_lit_0_05 by simp
  with write_delay_before_event [of "float_lit 0.05" "TerminalRecorder_init 80 24" "''g''" 80 24]
  show ?thesis
    by (simp add: TerminalRecorder_init_def)
qed

text \<open>
  Claim C5, as stated: for every duration \<open>d \<ge> 0\<close>, \<^verbatim>\<open>pause(d)\<close> advances the clock by
  exactly \<open>d\<close>. After \<^verbatim>\<open>pause(1e16)\<close> the clock is \<open>10\<^sup>1\<^sup>6\<close>, and \<^verbatim>\<open>pause(1.0)\<close> leaves it
  there: the exact sum \<open>10\<^sup>1\<^sup>6 + 1\<close> lies halfway between two doubles and is rounded to
  \<open>10\<^sup>1\<^sup>6\<close>.
\<close>

theorem absorbed_pause_counterexample:
  "fle (Finite 0) (float_lit 1)
   \<and> current_time (pause (TerminalRecorder_init 80 24) (float_lit (10 ^ 16))) = Finite (10 ^ 16)
   \<and> current_time (pause (pause (TerminalRecorder_init 80 24) (float_lit (10 ^ 16))) (float_lit 1))
       = Finite (10 ^ 16)
   \<and> current_time (pause (pause (TerminalRecorder_init 80 24) (float_lit (10 ^ 16))) (float_lit 1))
       \<noteq> Finite (10 ^ 16 + 1)"
  unfolding float_lit_1 float_lit_1e16
  by (simp add: pause_def TerminalRecorder_init_def) (simp add: eval_double)

text \<open>
  Claim C5, amended. For every duration \<open>d \<ge> 0\<close>, \<^verbatim>\<open>pause(d)\<close> replaces the clock by the
  float sum of the clock and \<open>d\<close> (\<open>fadd\<close>: the exact sum rounded to the nearest double) and
  appends no event; on a fresh recorder \<^verbatim>\<open>pause(2.0)\<close> followed by \<^verbatim>\<open>write("X", 0)\<close>
  leaves exactly one event, stamped \<open>2.0\<close>.
\<close>

theorem pause_advances_clock_only:
  "(fle (Finite 0) d \<longrightarrow>
      current_time (pause self d) = fadd (current_time self) d \<and>
      events (pause self d) = events self \<and>
      width (pause self d) = width self \<and> height (pause self d) = height self)
   \<and> events (write (pause (TerminalRecorder_init w h) (float_lit 2.0)) ''X'' (Finite 0)) = [(Finite 2, ''o'', ''X'')]"
proof -
  have "fadd (Finite 0) (float_lit 2.0) = Finite 2"
    unfolding float_lit_2 by (simp add: eval_double)
  then show ?thesis
    by (simp add: pause_def write_nonpos TerminalRecorder_init_def)
qed

theorem pause_advances_clock_only_witness:
  "fle (Finite 0) (float_lit 1.5) \<and>
   current_time (pause (write (TerminalRecorder_init 80 24) ''$ '' (float_lit 0.25)) (float_lit 1.5)) = Finite 1.75 \<and>
   events (pause (write (TerminalRecorder_init 80 24) ''$ '' (float_lit 0.25)) (float_lit 1.5)) =
     [(Finite 0.25, ''o'', ''$ '')]"
proof -
  have nonneg: "fle (Finite 0) (float_lit 1.5)"
    unfolding float_lit_1_5 by simp
  have start: "write (TerminalRecorder_init 80 24) ''$ '' (float_lit 0.25) =
      \<lparr>width = 80, height = 24, events = [(Finite 0.25, ''o'', ''$ '')], current_time = Finite 0.25\<rparr>"
    unfolding float_lit_0_25 by (simp add: write_def TerminalRecorder_init_def) (simp add: eval_double)
  have sum: "fadd (Finite 0.25) (float_lit 1.5) = Finite 1.75"
    unfolding float_lit_1_5 by (simp add: eval_double)
  from nonneg start sum
    pause_advances_clock_only [of "float_lit 1.5" "write (TerminalRecorder_init 80 24) ''$ '' (float_lit 0.25)" 80 24]
  show ?thesis
    by simp
qed

text \<open>
  Claim C1, as stated: a negative delay passed to \<^verbatim>\<open>write\<close> and a negative duration passed
  to \<^verbatim>\<open>pause\<close> are rejected with an invalid-argument error, the clock and the event list
  staying as they were. The source raises nowhere, so both methods are total functions on
  the recorder; on a fresh recorder \<^verbatim>\<open>write("x", -1)\<close> appends an event and
  \<^verbatim>\<open>pause(-1)\<close> sets the clock to \<open>-1\<close>.
\<close>

theorem negative_arguments_counterexample:
  "events (write (TerminalRecorder_init 80 24) ''x'' (float_lit (- 1))) = [(Finite 0, ''o'', ''x'')]
   \<and> events (write (TerminalRecorder_init 80 24) ''x'' (float_lit (- 1))) \<noteq> events (TerminalRecorder_init 80 24)
   \<and> current_time (pause (TerminalRecorder_init 80 24) (float_lit (- 1))) = Finite (- 1)
   \<and> current_time (pause (TerminalRecorder_init 80 24) (float_lit (- 1))) \<noteq> current_time (TerminalRecorder_init 80 24)"
  unfolding float_lit_neg_1
  by (simp add: write_nonpos pause_def TerminalRecorder_init_def) (simp add: eval_double)

text \<open>
  Claim C1, amended. No call is rejected. \<^verbatim>\<open>write\<close> with a negative delay behaves as
  \<^verbatim>\<open>write\<close> with delay zero (the guard \<^verbatim>\<open>delay > 0\<close>): the clock is unchanged and one
  event carrying the text is appended at the current clock value. \<^verbatim>\<open>pause\<close> with a
  negative duration leaves the event list unchanged.
\<close>

theorem negative_arguments_not_rejected:
  "flt d (Finite 0) \<longrightarrow>
     write self text d = write self text (Finite 0)
     \<and> current_time (write self text d) = current_time self
     \<and> events (write self text d) = events self @ [(current_time self, ''o'', text)]
     \<and> events (pause self d) = events self"
  by (simp add: write_nonpos flt_asym pause_def)

theorem negative_arguments_not_rejected_witness:
  "flt (float_lit (- 1)) (Finite 0)
   \<and> write (TerminalRecorder_init 80 24) ''x'' (float_lit (- 1)) = write (TerminalRecorder_init 80 24) ''x'' (Finite 0)
   \<and> current_time (write (TerminalRecorder_init 80 24) ''x'' (float_lit (- 1))) = Finite 0
   \<and> events (write (TerminalRecorder_init 80 24) ''x'' (float_lit (- 1))) = [(Finite 0, ''o'', ''x'')]
   \<and> events (pause (TerminalRecorder_init 80 24) (float_lit (- 1))) = []"
proof -
  have neg: "flt (float_lit (- 1)) (Finite 0)"
    unfolding float_lit_neg_1 by simp
  with negative_arguments_not_rejected [of "float_lit (- 1)" "TerminalRecorder_init 80 24" "''x''"]
  show ?thesis
    by (simp add: TerminalRecorder_init_def write_nonpos pause_def)
qed

text \<open>
  Claim C7. For every recorder, \<^verbatim>\<open>clear_screen()\<close> gives the same recorder as
  \<^verbatim>\<open>write("\033[2J\033[H", 0)\<close>: one event carrying the clear-and-home sequence is
  appended at the current clock value, and the clock does not move.
\<close>

theorem clear_screen_is_write:
  "clear_screen self = write self (CHR 0x1B # ''[2J'' @ CHR 0x1B # ''[H'') (Finite 0)
   \<and> events (clear_screen self) =
       events self @ [(current_time self, ''o'', CHR 0x1B # ''[2J'' @ CHR 0x1B # ''[H'')]
   \<and> current_time (clear_screen self) = current_time self
   \<and> width (clear_screen self) = width self \<and> height (clear_screen self) = height self"
  by (simp add: clear_screen_def write_default_delay_def write_nonpos)

subsection \<open>Typing\<close>

lemma type_text_width_height:
  "width (type_text self s d) = width self \<and> height (type_text self s d) = height self"
  by (induction s arbitrary: self) (simp_all add: write_def Let_def)

text \<open>
  The recorder after typing \<open>s\<close>: every character moves the clock by one \<open>advance\<close> and
  is stamped with the clock it leaves.
\<close>

lemma type_text_advance:
  "type_text self s d =
     self\<lparr>current_time := (advance d ^^ length s) (current_time self),
          events := events self @
            map (\<lambda>i. ((advance d ^^ Suc i) (current_time self), ''o'', [s ! i])) [0..<length s]\<rparr>"
proof (induction s arbitrary: self)
  case Nil
  then show ?case by simp
next
  case (Cons c s)
  have shift: "map (\<lambda>i. ((advance d ^^ Suc i) (current_time self), ''o'', [(c # s) ! i])) [0..<length (c # s)]
     = (advance d (current_time self), ''o'', [c]) #
       map (\<lambda>i. ((advance d ^^ Suc i) (advance d (current_time self)), ''o'', [s ! i])) [0..<length s]"
    by (simp add: map_upt_Suc funpow_swap1 del: upt_Suc)
  show ?case
    unfolding shift
    by (simp add: Cons.IH write_advance funpow_swap1)
qed

text \<open>
  Claim C4, as stated: \<^verbatim>\<open>type_text(s, d)\<close> advances the clock by exactly \<open>len(s) * d\<close>. Each
  of the \<open>len(s)\<close> additions is rounded: on a fresh recorder
  \<^verbatim>\<open>type_text("aaaaaaaaaa", 0.1)\<close> ends with the clock at \<open>1 - 2\<^sup>-\<^sup>5\<^sup>3\<close> (printed
  \<^verbatim>\<open>0.9999999999999999\<close>), which is neither ten times the double \<^verbatim>\<open>0.1\<close> nor the float
  product \<^verbatim>\<open>10 * 0.1\<close>, which is \<^verbatim>\<open>1.0\<close>.
\<close>

theorem type_text_rounding_counterexample:
  "float_lit 0.1 = Finite (3602879701896397 / 2 ^ 55)
   \<and> current_time (type_text (TerminalRecorder_init 80 24) ''aaaaaaaaaa'' (float_lit 0.1)) = Finite (1 - 1 / 2 ^ 53)
   \<and> Finite (1 - 1 / 2 ^ 53) \<noteq> Finite (10 * (3602879701896397 / 2 ^ 55))
   \<and> round_double (10 * (3602879701896397 / 2 ^ 55)) = Finite 1
   \<and> Finite (1 - 1 / 2 ^ 53) \<noteq> Finite 1"
  unfolding float_lit_0_1
  by (simp add: write_def TerminalRecorder_init_def) (simp add: eval_double)

text \<open>
  Claim C4, amended. For every string \<open>s\<close> and every delay \<open>d \<ge> 0\<close> per character,
  \<^verbatim>\<open>type_text(s, d)\<close> appends exactly \<open>len(s)\<close> events, each carrying one character, in the
  order of the string. The clock makes one step per character, the float addition of \<open>d\<close>
  (rounded to the nearest double) when \<open>d > 0\<close> and no change when \<open>d\<close> is zero: the \<open>i\<close>-th
  new event is stamped with the clock after \<open>i + 1\<close> steps and the clock ends where
  \<open>len(s)\<close> steps take it. The empty string appends nothing and leaves the clock where it
  was.
\<close>

theorem type_text_cost:
  "(fle (Finite 0) d \<longrightarrow>
      events (type_text self s d) =
        events self @ map (\<lambda>i. ((advance d ^^ Suc i) (current_time self), ''o'', [s ! i])) [0..<length s]
      \<and> length (events (type_text self s d)) = length (events self) + length s
      \<and> map (\<lambda>(timestamp, event_type, data). data) (drop (length (events self)) (events (type_text self s d)))
          = map (\<lambda>c. [c]) s
      \<and> current_time (type_text self s d) = (advance d ^^ length s) (current_time self))
   \<and> (flt (Finite 0) d \<longrightarrow> advance d = (\<lambda>clock. fadd clock d))
   \<and> advance (Finite 0) = (\<lambda>clock. clock)
   \<and> type_text self [] d = self"
proof -
  have "map (\<lambda>i. [s ! i]) [0..<length s] = map (\<lambda>c. [c]) s"
    by (rule nth_equalityI) simp_all
  then show ?thesis
    by (simp add: type_text_advance comp_def advance_def fun_eq_iff)
qed

theorem type_text_cost_witness:
  "fle (Finite 0) (float_lit 0.05)
   \<and> events (type_text (TerminalRecorder_init 80 24) ''cd'' (float_lit 0.05)) =
       [(float_lit 0.05, ''o'', ''c''), (float_lit 0.1, ''o'', ''d'')]
   \<and> current_time (type_text (TerminalRecorder_init 80 24) ''cd'' (float_lit 0.05)) = float_lit 0.1"
proof -
  have nonneg: "fle (Finite 0) (float_lit 0.05)"
    unfolding float_lit_0_05 by simp
  have one: "advance (float_lit 0.05) (Finite 0) = float_lit 0.05"
    unfolding float_lit_0_05 advance_def by (simp add: eval_double)
  have two: "advance (float_lit 0.05) (float_lit 0.05) = float_lit 0.1"
    unfolding float_lit_0_05 float_lit_0_1 advance_def by (simp add: eval_double)
  from nonneg one two type_text_cost [of "float_lit 0.05" "TerminalRecorder_init 80 24" "''cd''"]
  show ?thesis
    by (simp add: TerminalRecorder_init_def upt_rec numeral_2_eq_2)
qed

subsection \<open>Colour codes\<close>

lemma map_of_colors_reset: "map_of colors ''reset'' = Some (CHR 0x1B # ''[0m'')"
  by (simp add: colors_def)

lemma color_eq:
  "color self text color_code =
     Inr ((case map_of colors color_code of None \<Rightarrow> '''' | Some code \<Rightarrow> code) @ text @ CHR 0x1B # ''[0m'')"
  by (simp add: color_def map_of_colors_reset)

text \<open>
  Claim C6. For every text, \<^verbatim>\<open>color(text, name)\<close> with \<open>name\<close> one of red, green, yellow,
  blue, purple, cyan and bold returns the opening code of that name, the text and the
  reset code \<^verbatim>\<open>\033[0m\<close>; with a name that is not a key of the table it returns the text
  and the reset code, with no opening code. The result does not depend on the recorder,
  and the call returns a string only: no recorder state is read or written.
\<close>

theorem color_contract:
  "color self text ''red'' = Inr (CHR 0x1B # ''[0;31m'' @ text @ CHR 0x1B # ''[0m'')
   \<and> color self text ''green'' = Inr (CHR 0x1B # ''[0;32m'' @ text @ CHR 0x1B # ''[0m'')
   \<and> color self text ''yellow'' = Inr (CHR 0x1B # ''[1;33m'' @ text @ CHR 0x1B # ''[0m'')
   \<and> color self text ''blue'' = Inr (CHR 0x1B # ''[0;34m'' @ text @ CHR 0x1B # ''[0m'')
   \<and> color self text ''purple'' = Inr (CHR 0x1B # ''[0;35m'' @ text @ CHR 0x1B # ''[0m'')
   \<and> color self text ''cyan'' = Inr (CHR 0x1B # ''[0;36m'' @ text @ CHR 0x1B # ''[0m'')
   \<and> color self text ''bold'' = Inr (CHR 0x1B # ''[1m'' @ text @ CHR 0x1B # ''[0m'')
   \<and> (color_code \<notin> fst ` set colors \<longrightarrow>
        color self text color_code = Inr (text @ CHR 0x1B # ''[0m''))
   \<and> color self text color_code = color other text color_code"
proof -
  have known: "color self text ''red'' = Inr (CHR 0x1B # ''[0;31m'' @ text @ CHR 0x1B # ''[0m'')"
    "color self text ''green'' = Inr (CHR 0x1B # ''[0;32m'' @ text @ CHR 0x1B # ''[0m'')"
    "color self text ''yellow'' = Inr (CHR 0x1B # ''[1;33m'' @ text @ CHR 0x1B # ''[0m'')"
    "color self text ''blue'' = Inr (CHR 0x1B # ''[0;34m'' @ text @ CHR 0x1B # ''[0m'')"
    "color self text ''purple'' = Inr (CHR 0x1B # ''[0;35m'' @ text @ CHR 0x1B # ''[0m'')"
    "color self text ''cyan'' = Inr (CHR 0x1B # ''[0;36m'' @ text @ CHR 0x1B # ''[0m'')"
    "color self text ''bold'' = Inr (CHR 0x1B # ''[1m'' @ text @ CHR 0x1B # ''[0m'')"
    by (simp_all add: color_eq colors_def)
  have unknown: "color self text color_code = Inr (text @ CHR 0x1B # ''[0m'')"
    if "color_code \<notin> fst ` set colors"
  proof -
    from that have "map_of colors color_code = None"
      by (simp add: map_of_eq_None_iff)
    then show ?thesis by (simp add: color_eq)
  qed
  have pure: "color self text color_code = color other text color_code"
    by (simp add: color_eq)
  from known unknown pure show ?thesis by blast
qed

theorem color_contract_witness:
  "''magenta'' \<notin> fst ` set colors
   \<and> color (TerminalRecorder_init 80 24) ''OK'' ''magenta'' = Inr (''OK'' @ CHR 0x1B # ''[0m'')
   \<and> color (TerminalRecorder_init 80 24) ''OK'' ''green'' = Inr (CHR 0x1B # ''[0;32m'' @ ''OK'' @ CHR 0x1B # ''[0m'')"
proof -
  have miss: "''magenta'' \<notin> fst ` set colors"
    by (simp add: colors_def)
  with color_contract [of "TerminalRecorder_init 80 24" "''OK''" "''magenta''"]
  show ?thesis by simp
qed

text \<open>
  Claim C10. For every text, \<^verbatim>\<open>color(text, "reset")\<close> returns
  \<^verbatim>\<open>"\033[0m" + text + "\033[0m"\<close>: \<^verbatim>\<open>"reset"\<close> is itself a key of the table, so the
  lookup finds it and the reset code also opens the result.
\<close>

theorem color_reset_is_a_key:
  "color self text ''reset'' = Inr (CHR 0x1B # ''[0m'' @ text @ CHR 0x1B # ''[0m'')
   \<and> ''reset'' \<in> fst ` set colors"
  by (simp add: color_eq colors_def)

subsection \<open>Scripts keep the timeline ordered\<close>

lemma timeline_ok_init: "timeline_ok (TerminalRecorder_init w h)"
  by (simp add: timeline_ok_def TerminalRecorder_init_def round_double_zero)

text \<open>
  Moving the clock forward and appending an event at the clock keep the timeline in order.
\<close>

lemma timeline_ok_clock:
  assumes "timeline_ok self" and "is_clock c" and "fle (current_time self) c"
  shows "timeline_ok (self\<lparr>current_time := c\<rparr>)"
  using assms by (auto simp: timeline_ok_def list_all_iff intro: fle_trans)

lemma timeline_ok_event:
  assumes "timeline_ok self"
  shows "timeline_ok (self\<lparr>events := events self @ [(current_time self, ''o'', text)]\<rparr>)"
  using assms by (auto simp: timeline_ok_def list_all_iff sorted_wrt_append is_clock_refl)

lemma timeline_ok_pause:
  assumes "fle (Finite 0) d" and "timeline_ok self"
  shows "timeline_ok (pause self d)"
proof -
  from assms have "is_clock (current_time self)" by (simp add: timeline_ok_def)
  from is_clock_fadd [OF this assms(1)] assms(2) show ?thesis
    unfolding pause_def by (intro timeline_ok_clock) simp_all
qed

lemma timeline_ok_write:
  assumes "timeline_ok self"
  shows "timeline_ok (write self text delay)"
proof (cases "flt (Finite 0) delay")
  case True
  then have "fle (Finite 0) delay" by (rule flt_imp_fle)
  then have "timeline_ok (pause self delay)"
    using assms by (rule timeline_ok_pause)
  from timeline_ok_event [OF this, of "text"] True show ?thesis
    by (simp add: write_def pause_def)
next
  case False
  with timeline_ok_event [OF assms, of "text"] show ?thesis
    by (simp add: write_def)
qed

lemma clock_pause:
  "fle (Finite 0) d \<Longrightarrow> is_clock (current_time self) \<Longrightarrow>
   fle (current_time self) (current_time (pause self d))"
  by (simp add: pause_def is_clock_fadd)

lemma clock_write:
  "is_clock (current_time self) \<Longrightarrow> fle (current_time self) (current_time (write self text delay))"
  by (simp add: write_def is_clock_fadd flt_imp_fle is_clock_refl)

lemma timeline_ok_type_text: "timeline_ok self \<Longrightarrow> timeline_ok (type_text self s d)"
  by (induction s arbitrary: self) (simp_all add: timeline_ok_write)

lemma clock_type_text:
  "timeline_ok self \<Longrightarrow> fle (current_time self) (current_time (type_text self s d))"
proof (induction s arbitrary: self)
  case Nil
  then show ?case by (simp add: timeline_ok_def is_clock_refl)
next
  case (Cons c s)
  have "fle (current_time self) (current_time (write self [c] d))"
    using Cons.prems by (simp add: clock_write timeline_ok_def)
  moreover have "fle (current_time (write self [c] d)) (current_time (type_text (write self [c] d) s d))"
    using Cons.prems by (intro Cons.IH timeline_ok_write)
  ultimately show ?case
    by (simp add: fle_trans)
qed

lemma timeline_ok_do_call: "nonneg_call c \<Longrightarrow> timeline_ok self \<Longrightarrow> timeline_ok (do_call self c)"
  by (cases c) (simp_all add: timeline_ok_write timeline_ok_type_text timeline_ok_pause clear_screen_def)

lemma clock_do_call:
  "nonneg_call c \<Longrightarrow> timeline_ok self \<Longrightarrow> fle (current_time self) (current_time (do_call self c))"
  by (cases c) (simp_all add: clock_write clock_type_text clock_pause clear_screen_def timeline_ok_def)

lemma timeline_ok_run_calls:
  "\<forall>c\<in>set cs. nonneg_call c \<Longrightarrow> timeline_ok self \<Longrightarrow> timeline_ok (run_calls self cs)"
  unfolding run_calls_def
  by (induction cs arbitrary: self) (simp_all add: timeline_ok_do_call)

lemma clock_run_calls:
  "\<forall>c\<in>set cs. nonneg_call c \<Longrightarrow> timeline_ok self \<Longrightarrow>
   fle (current_time self) (current_time (run_calls self cs))"
  unfolding run_calls_def
proof (induction cs arbitrary: self)
  case Nil
  then show ?case by (simp add: timeline_ok_def is_clock_refl)
next
  case (Cons c cs)
  have "fle (current_time self) (current_time (do_call self c))"
    using Cons.prems by (simp add: clock_do_call)
  moreover have "fle (current_time (do_call self c)) (current_time (foldl do_call (do_call self c) cs))"
    using Cons.prems by (intro Cons.IH) (simp_all add: timeline_ok_do_call)
  ultimately show ?case
    by (simp add: fle_trans)
qed

lemma run_calls_append: "run_calls self (xs @ ys) = run_calls (run_calls self xs) ys"
  by (simp add: run_calls_def)

text \<open>
  Claim C2. For every sequence of \<^verbatim>\<open>write\<close>, \<^verbatim>\<open>pause\<close> and \<^verbatim>\<open>type_text\<close> calls on a fresh
  recorder in which every delay and every duration is non-negative, the timestamps of the
  stored events are non-decreasing in the order they were appended, and the clock never
  decreases: after any number of calls it is at least what it was after fewer calls.
  (Calls of \<^verbatim>\<open>clear_screen\<close> may be mixed in; the order is that of \<^verbatim>\<open><=\<close> on floats.)
\<close>

theorem timestamps_nondecreasing:
  assumes nonneg: "\<forall>c\<in>set cs. nonneg_call c"
  shows "sorted_wrt fle (map fst (events (run_calls (TerminalRecorder_init w h) cs)))
     \<and> (\<forall>m n. m \<le> n \<longrightarrow>
           fle (current_time (run_calls (TerminalRecorder_init w h) (take m cs)))
               (current_time (run_calls (TerminalRecorder_init w h) (take n cs))))"
proof
  have "timeline_ok (run_calls (TerminalRecorder_init w h) cs)"
    using nonneg by (simp add: timeline_ok_run_calls timeline_ok_init)
  then show "sorted_wrt fle (map fst (events (run_calls (TerminalRecorder_init w h) cs)))"
    by (simp add: timeline_ok_def)
next
  show "\<forall>m n. m \<le> n \<longrightarrow>
           fle (current_time (run_calls (TerminalRecorder_init w h) (take m cs)))
               (current_time (run_calls (TerminalRecorder_init w h) (take n cs)))"
  proof (intro allI impI)
    fix m n :: nat
    assume "m \<le> n"
    then have split: "take n cs = take m cs @ take (n - m) (drop m cs)"
      by (metis le_add_diff_inverse take_add)
    have rest: "\<forall>c\<in>set (take (n - m) (drop m cs)). nonneg_call c"
      using nonneg by (meson in_set_dropD in_set_takeD)
    have "\<forall>c\<in>set (take m cs). nonneg_call c"
      using nonneg by (meson in_set_takeD)
    then have "timeline_ok (run_calls (TerminalRecorder_init w h) (take m cs))"
      by (simp add: timeline_ok_run_calls timeline_ok_init)
    with rest show "fle (current_time (run_calls (TerminalRecorder_init w h) (take m cs)))
               (current_time (run_calls (TerminalRecorder_init w h) (take n cs)))"
      unfolding split run_calls_append by (rule clock_run_calls)
  qed
qed

theorem timestamps_nondecreasing_witness:
  "list_all nonneg_call [Pause (float_lit 2.0), Write ''A'' (float_lit 0.05), TypeText ''ls'' (float_lit 0.05), ClearScreen]
   \<and> sorted_wrt fle (map fst (events (run_calls (TerminalRecorder_init 80 24)
        [Pause (float_lit 2.0), Write ''A'' (float_lit 0.05), TypeText ''ls'' (float_lit 0.05), ClearScreen])))
   \<and> fle (current_time (run_calls (TerminalRecorder_init 80 24)
             (take 1 [Pause (float_lit 2.0), Write ''A'' (float_lit 0.05), TypeText ''ls'' (float_lit 0.05), ClearScreen])))
          (current_time (run_calls (TerminalRecorder_init 80 24)
             (take 3 [Pause (float_lit 2.0), Write ''A'' (float_lit 0.05), TypeText ''ls'' (float_lit 0.05), ClearScreen])))"
proof -
  have nonneg: "\<forall>c\<in>set [Pause (float_lit 2.0), Write ''A'' (float_lit 0.05), TypeText ''ls'' (float_lit 0.05), ClearScreen].
      nonneg_call c"
    unfolding float_lit_2 float_lit_0_05 by simp
  from timestamps_nondecreasing [OF nonneg, of 80 24] have
    "sorted_wrt fle (map fst (events (run_calls (TerminalRecorder_init 80 24)
        [Pause (float_lit 2.0), Write ''A'' (float_lit 0.05), TypeText ''ls'' (float_lit 0.05), ClearScreen])))"
    and "\<And>m n. m \<le> n \<Longrightarrow>
      fle (current_time (run_calls (TerminalRecorder_init 80 24)
             (take m [Pause (float_lit 2.0), Write ''A'' (float_lit 0.05), TypeText ''ls'' (float_lit 0.05), ClearScreen])))
          (current_time (run_calls (TerminalRecorder_init 80 24)
             (take n [Pause (float_lit 2.0), Write ''A'' (float_lit 0.05), TypeText ''ls'' (float_lit 0.05), ClearScreen])))"
    by blast+
  from this(1) this(2) [of 1 3] nonneg show ?thesis
    unfolding list_all_iff by simp
qed

subsection \<open>Serialization\<close>

lemma write_dims: "width (write self text d) = width self \<and> height (write self text d) = height self"
  by (simp add: write_def Let_def)

lemma do_call_dims: "width (do_call self c) = width self \<and> height (do_call self c) = height self"
  by (cases c) (simp_all add: write_dims type_text_width_height pause_def clear_screen_def)

lemma run_calls_dims: "width (run_calls self cs) = width self \<and> height (run_calls self cs) = height self"
  unfolding run_calls_def
  by (induction cs arbitrary: self) (simp_all add: do_call_dims)

lemma channel_ok_init: "channel_ok (TerminalRecorder_init w h)"
  by (simp add: channel_ok_def TerminalRecorder_init_def)

lemma channel_ok_write: "channel_ok self \<Longrightarrow> channel_ok (write self text d)"
  by (simp add: channel_ok_def write_def Let_def)

lemma channel_ok_type_text: "channel_ok self \<Longrightarrow> channel_ok (type_text self s d)"
  by (induction s arbitrary: self) (simp_all add: channel_ok_write)

lemma channel_ok_do_call: "channel_ok self \<Longrightarrow> channel_ok (do_call self c)"
  by (cases c) (simp_all add: channel_ok_write channel_ok_type_text clear_screen_def, simp add: channel_ok_def pause_def)

lemma channel_ok_run_calls: "channel_ok self \<Longrightarrow> channel_ok (run_calls self cs)"
  unfolding run_calls_def
  by (induction cs arbitrary: self) (simp_all add: channel_ok_do_call)

lemma write_events_eq:
  "write_events dumps es f = f @ concat (map (\<lambda>e. dumps (event_record e) @ [CHR 0x0A]) es)"
  by (induction dumps es f rule: write_events.induct) simp_all

lemma save_asciicast_eq:
  "save_asciicast dumps now self =
     concat (map (\<lambda>v. dumps v @ [CHR 0x0A]) (cast_records now self))"
  by (simp add: save_asciicast_def write_events_eq cast_records_def comp_def)

text \<open>
  Claim C8. For every recorder built by the constructor and any calls, the text that
  \<^verbatim>\<open>save_asciicast\<close> writes starts with the encoded header, whose fields \<open>width\<close> and
  \<open>height\<close> are the arguments given to the constructor and whose field \<open>version\<close> is 2;
  after the header comes one encoded record for each stored event, each on its own line.
\<close>

theorem header_fidelity:
  "save_asciicast dumps now (run_calls (TerminalRecorder_init w h) cs) =
     dumps (header now (run_calls (TerminalRecorder_init w h) cs)) @ [CHR 0x0A] @
     concat (map (\<lambda>e. dumps (event_record e) @ [CHR 0x0A])
               (events (run_calls (TerminalRecorder_init w h) cs)))
   \<and> field ''version'' (header now (run_calls (TerminalRecorder_init w h) cs)) = Some (JInt 2)
   \<and> field ''width'' (header now (run_calls (TerminalRecorder_init w h) cs)) = Some (JInt w)
   \<and> field ''height'' (header now (run_calls (TerminalRecorder_init w h) cs)) = Some (JInt h)
   \<and> length (cast_records now (run_calls (TerminalRecorder_init w h) cs)) =
       1 + length (events (run_calls (TerminalRecorder_init w h) cs))"
proof -
  have "width (run_calls (TerminalRecorder_init w h) cs) = w"
    and "height (run_calls (TerminalRecorder_init w h) cs) = h"
    by (simp_all add: run_calls_dims TerminalRecorder_init_def)
  then show ?thesis
    by (simp add: save_asciicast_def write_events_eq header_def cast_records_def)
qed

lemma lines_from_line:
  "CHR 0x0A \<notin> set l \<Longrightarrow> lines_from line (l @ CHR 0x0A # rest) = (line @ l) # lines_from [] rest"
  by (induction l arbitrary: line) auto

lemma read_lines_concat:
  "\<forall>l\<in>set ls. CHR 0x0A \<notin> set l \<Longrightarrow> lines_from [] (concat (map (\<lambda>l. l @ [CHR 0x0A]) ls)) = ls"
proof (induction ls)
  case Nil
  show ?case by simp
next
  case (Cons l ls)
  then have "CHR 0x0A \<notin> set l" by simp
  from lines_from_line [OF this, of "[]" "concat (map (\<lambda>l. l @ [CHR 0x0A]) ls)"] Cons
  show ?case by simp
qed

lemma read_lines_save_asciicast:
  assumes "\<forall>v\<in>set (cast_records now self). CHR 0x0A \<notin> set (dumps v)"
  shows "read_lines (save_asciicast dumps now self) = map dumps (cast_records now self)"
proof -
  have "concat (map (\<lambda>v. dumps v @ [CHR 0x0A]) (cast_records now self))
      = concat (map (\<lambda>l. l @ [CHR 0x0A]) (map dumps (cast_records now self)))"
    by (simp add: comp_def)
  moreover have "\<forall>l\<in>set (map dumps (cast_records now self)). CHR 0x0A \<notin> set l"
    using assms by simp
  ultimately show ?thesis
    unfolding read_lines_def save_asciicast_eq
    by (simp only: read_lines_concat)
qed

text \<open>
  Claim C9. For every recorder built by the constructor and any calls, the lines after
  the header are exactly one record per stored event, in stored order, each the encoding
  of \<open>[timestamp, "o", payload]\<close>; decoding those lines gives back the triples of the
  stored events, in the same order, none lost. The JSON library enters through two facts
  about the records written: the encoder puts no raw newline into a record, and the
  decoder inverts the encoder.
\<close>

theorem cast_round_trip:
  assumes lib: "\<forall>v\<in>set (cast_records now (run_calls (TerminalRecorder_init w h) cs)).
                  CHR 0x0A \<notin> set (dumps v) \<and> loads (dumps v) = Some v"
  shows "tl (read_lines (save_asciicast dumps now (run_calls (TerminalRecorder_init w h) cs))) =
           map (\<lambda>(timestamp, event_type, data). dumps (JArr [JFloat timestamp, JStr ''o'', JStr data]))
             (events (run_calls (TerminalRecorder_init w h) cs))
     \<and> parse_events loads (save_asciicast dumps now (run_calls (TerminalRecorder_init w h) cs)) =
           map Some (events (run_calls (TerminalRecorder_init w h) cs))"
proof -
  define self where "self = run_calls (TerminalRecorder_init w h) cs"
  have lines: "read_lines (save_asciicast dumps now self) = map dumps (cast_records now self)"
    using lib unfolding self_def by (intro read_lines_save_asciicast) simp
  then have rest: "tl (read_lines (save_asciicast dumps now self)) =
      map (\<lambda>e. dumps (event_record e)) (events self)"
    by (simp add: cast_records_def comp_def)
  have "channel_ok self"
    unfolding self_def by (simp add: channel_ok_run_calls channel_ok_init)
  then have shape: "map (\<lambda>e. dumps (event_record e)) (events self) =
      map (\<lambda>(timestamp, event_type, data). dumps (JArr [JFloat timestamp, JStr ''o'', JStr data])) (events self)"
    by (auto simp: channel_ok_def list_all_iff)
  have recover: "(case loads (dumps (event_record e)) of None \<Rightarrow> None | Some v \<Rightarrow> event_of_json v) = Some e"
    if "e \<in> set (events self)" for e
  proof -
    from that lib have "loads (dumps (event_record e)) = Some (event_record e)"
      unfolding self_def by (simp add: cast_records_def)
    then show ?thesis by (cases e) simp
  qed
  have "parse_events loads (save_asciicast dumps now self) = map Some (events self)"
    unfolding parse_events_def rest by (simp add: recover comp_def)
  with rest shape show ?thesis
    unfolding self_def by simp
qed

theorem cast_round_trip_witness:
  "list_all
      (\<lambda>v. CHR 0x0A \<notin> set ((\<lambda>v. case v of JArr [t, c, JStr p] \<Rightarrow> ''['' @ p @ '']'' | _ \<Rightarrow> ''{}'') v)
         \<and> (\<lambda>l. if l = ''[A]'' then Some (JArr [JFloat (float_lit 0.05), JStr ''o'', JStr ''A''])
               else if l = ''[B]'' then Some (JArr [JFloat (float_lit 0.1), JStr ''o'', JStr ''B''])
               else Some (header 0 (TerminalRecorder_init 80 24)))
            ((\<lambda>v. case v of JArr [t, c, JStr p] \<Rightarrow> ''['' @ p @ '']'' | _ \<Rightarrow> ''{}'') v) = Some v)
      (cast_records 0 (run_calls (TerminalRecorder_init 80 24)
         [Write ''A'' (float_lit 0.05), Write ''B'' (float_lit 0.05)]))
   \<and> read_lines (save_asciicast (\<lambda>v. case v of JArr [t, c, JStr p] \<Rightarrow> ''['' @ p @ '']'' | _ \<Rightarrow> ''{}'') 0
         (run_calls (TerminalRecorder_init 80 24) [Write ''A'' (float_lit 0.05), Write ''B'' (float_lit 0.05)]))
       = [''{}'', ''[A]'', ''[B]'']
   \<and> parse_events
         (\<lambda>l. if l = ''[A]'' then Some (JArr [JFloat (float_lit 0.05), JStr ''o'', JStr ''A''])
               else if l = ''[B]'' then Some (JArr [JFloat (float_lit 0.1), JStr ''o'', JStr ''B''])
               else Some (header 0 (TerminalRecorder_init 80 24)))
         (save_asciicast (\<lambda>v. case v of JArr [t, c, JStr p] \<Rightarrow> ''['' @ p @ '']'' | _ \<Rightarrow> ''{}'') 0
            (run_calls (TerminalRecorder_init 80 24) [Write ''A'' (float_lit 0.05), Write ''B'' (float_lit 0.05)]))
       = [Some (float_lit 0.05, ''o'', ''A''), Some (float_lit 0.1, ''o'', ''B'')]"
proof -
  have one: "fadd (Finite 0) (float_lit 0.05) = float_lit 0.05"
    and two: "fadd (float_lit 0.05) (float_lit 0.05) = float_lit 0.1"
    and pos: "flt (Finite 0) (float_lit 0.05)"
    unfolding float_lit_0_05 float_lit_0_1 by (simp_all add: eval_double)
  have run: "run_calls (TerminalRecorder_init 80 24) [Write ''A'' (float_lit 0.05), Write ''B'' (float_lit 0.05)] =
      \<lparr>width = 80, height = 24,
        events = [(float_lit 0.05, ''o'', ''A''), (float_lit 0.1, ''o'', ''B'')],
        current_time = float_lit 0.1\<rparr>"
    using one two pos by (simp add: run_calls_def TerminalRecorder_init_def write_def)
  have lib: "\<forall>v\<in>set (cast_records 0 (run_calls (TerminalRecorder_init 80 24)
         [Write ''A'' (float_lit 0.05), Write ''B'' (float_lit 0.05)])).
      CHR 0x0A \<notin> set ((\<lambda>v. case v of JArr [t, c, JStr p] \<Rightarrow> ''['' @ p @ '']'' | _ \<Rightarrow> ''{}'') v)
      \<and> (\<lambda>l. if l = ''[A]'' then Some (JArr [JFloat (float_lit 0.05), JStr ''o'', JStr ''A''])
               else if l = ''[B]'' then Some (JArr [JFloat (float_lit 0.1), JStr ''o'', JStr ''B''])
               else Some (header 0 (TerminalRecorder_init 80 24)))
            ((\<lambda>v. case v of JArr [t, c, JStr p] \<Rightarrow> ''['' @ p @ '']'' | _ \<Rightarrow> ''{}'') v) = Some v"
    unfolding run by (simp add: cast_records_def header_def TerminalRecorder_init_def)
  have read: "read_lines (save_asciicast (\<lambda>v. case v of JArr [t, c, JStr p] \<Rightarrow> ''['' @ p @ '']'' | _ \<Rightarrow> ''{}'') 0
         (run_calls (TerminalRecorder_init 80 24) [Write ''A'' (float_lit 0.05), Write ''B'' (float_lit 0.05)]))
       = [''{}'', ''[A]'', ''[B]'']"
    unfolding run by (simp add: read_lines_def save_asciicast_def header_def)
  from cast_round_trip [OF lib] lib read show ?thesis
    unfolding run by (simp add: list_all_iff)
qed

end
